theory Spec2Isabelle
  imports Main "HOL-Library.Word"
begin

unbundle bit_operations_syntax

section \<open>Data model of Serializable.h\<close>

text \<open>
  \<^verbatim>\<open>enum Type { NONE, UINT8, INT8, UINT16, INT16, UINT32, INT32, UINT64, INT64,
              FLT32, FLT64, FLT128 };\<close>
\<close>

datatype Type = NONE | UINT8 | INT8 | UINT16 | INT16 | UINT32 | INT32 | UINT64 | INT64
  | FLT32 | FLT64 | FLT128

type_synonym uchar = "8 word"
type_synonym ByteVec = "uchar list"
type_synonym SerializedMember = "Type \<times> ByteVec"

text \<open>
  The template parameter \<open>T\<close> of the source is passed as a value: what the type traits
  \<open>std::is_integral\<close>, \<open>std::is_signed\<close> and \<open>std::is_floating_point\<close> say about it, and
  \<open>sizeof(T)\<close>. \<open>Integral True\<close> is a signed integral type. \<open>Boolean\<close> is \<open>bool\<close>:
  integral and not signed for the traits, but a conversion to it gives 0 or 1.
\<close>

datatype category = Integral bool | Boolean | FloatingPoint | NonArithmetic

datatype ctype = CType (category: category) (sizeof: nat)

definition uint8_t :: ctype where "uint8_t = CType (Integral False) 1"
definition int8_t :: ctype where "int8_t = CType (Integral True) 1"
definition uint16_t :: ctype where "uint16_t = CType (Integral False) 2"
definition int16_t :: ctype where "int16_t = CType (Integral True) 2"
definition uint32_t :: ctype where "uint32_t = CType (Integral False) 4"
definition int32_t :: ctype where "int32_t = CType (Integral True) 4"
definition uint64_t :: ctype where "uint64_t = CType (Integral False) 8"
definition int64_t :: ctype where "int64_t = CType (Integral True) 8"
definition bool_t :: ctype where "bool_t = CType Boolean 1"

text \<open>
  A value of a scalar type. An integral value is its mathematical value. A floating-point
  object is only ever read by the source through a union with \<open>int32_t\<close>, \<open>int64_t\<close> or
  \<open>int64_t[2]\<close>; \<open>FloatVal ws\<close> is the object given by the integers \<open>ws\<close> that this union
  shows (one for 32 and 64 bits, \<open>out[0]\<close> and \<open>out[1]\<close> for 128 bits). \<open>OtherVal\<close> is a value
  of a non-arithmetic type, of which only its identity matters; \<open>OtherVal 0\<close> is what
  \<open>static_cast<T>(0)\<close> gives.
\<close>

datatype cvalue = IntVal int | FloatVal "int list" | OtherVal nat

text \<open>
  \<open>int_val\<close> reads the argument of the integral overloads, \<open>union_out v k\<close> the member
  \<open>out\<close> (or \<open>out[k]\<close>) of the union holding \<open>v\<close>. The C++ types pass only integral
  values to the first and floating-point objects to the second.
\<close>

fun int_val :: "cvalue \<Rightarrow> int" where
  "int_val (IntVal i) = i"
| "int_val _ = 0"

fun union_out :: "cvalue \<Rightarrow> nat \<Rightarrow> int" where
  "union_out (FloatVal ws) k = (if k < length ws then ws ! k else 0)"
| "union_out _ k = 0"

text \<open>The host's byte order, on which the macros of \<open><endian.h>\<close> depend.\<close>

datatype endian = LittleEndian | BigEndian

text \<open>\<open>CHAR_BIT\<close> of \<open><climits>\<close>: 8 wherever \<open><endian.h>\<close> exists.\<close>

definition CHAR_BIT :: nat where "CHAR_BIT = 8"

section \<open>Integer conversions\<close>

text \<open>
  \<open>static_cast<T>(x)\<close> for an integral \<open>T\<close>: the value of \<open>x\<close> modulo \<open>2 ^ width\<close>, read
  as two's complement when \<open>T\<close> is signed; for \<open>bool\<close>, whether \<open>x\<close> is not zero.
\<close>

definition cast :: "ctype \<Rightarrow> int \<Rightarrow> int" where
  "cast T x =
     (case category T of
        Integral True \<Rightarrow> signed_take_bit (CHAR_BIT * sizeof T - 1) x
      | Boolean \<Rightarrow> (if x = 0 then 0 else 1)
      | _ \<Rightarrow> take_bit (CHAR_BIT * sizeof T) x)"

text \<open>Reversal of the \<open>n\<close> low bytes of an unsigned value (\<open>bswap_16\<close>, \<open>bswap_32\<close>, \<open>bswap_64\<close>).\<close>

fun bswap :: "nat \<Rightarrow> int \<Rightarrow> int" where
  "bswap 0 x = 0"
| "bswap (Suc n) x = push_bit (8 * n) (take_bit 8 x) + bswap n (drop_bit 8 x)"

text \<open>
  \<open>htole16\<close>, \<open>htole32\<close>, \<open>htole64\<close> of \<open><endian.h>\<close>: the argument is converted to the
  unsigned type of that width; the identity on a little-endian host, a byte swap on a
  big-endian one. \<open>le16toh\<close>, \<open>le32toh\<close>, \<open>le64toh\<close> are the same functions.
\<close>

definition htole16 :: "endian \<Rightarrow> int \<Rightarrow> int" where
  "htole16 host x = (case host of LittleEndian \<Rightarrow> take_bit 16 x | BigEndian \<Rightarrow> bswap 2 (take_bit 16 x))"

definition htole32 :: "endian \<Rightarrow> int \<Rightarrow> int" where
  "htole32 host x = (case host of LittleEndian \<Rightarrow> take_bit 32 x | BigEndian \<Rightarrow> bswap 4 (take_bit 32 x))"

definition htole64 :: "endian \<Rightarrow> int \<Rightarrow> int" where
  "htole64 host x = (case host of LittleEndian \<Rightarrow> take_bit 64 x | BigEndian \<Rightarrow> bswap 8 (take_bit 64 x))"

definition le16toh :: "endian \<Rightarrow> int \<Rightarrow> int" where
  "le16toh host x = htole16 host x"

definition le32toh :: "endian \<Rightarrow> int \<Rightarrow> int" where
  "le32toh host x = htole32 host x"

definition le64toh :: "endian \<Rightarrow> int \<Rightarrow> int" where
  "le64toh host x = htole64 host x"

section \<open>Type tag resolver\<close>

text \<open>
  \<^verbatim>\<open>uchar raw = CHAR_BIT * sizeof(T); uchar remainder = raw % 8;
  return 0 == remainder ? raw : raw + 8 - remainder;\<close>
  The result is an \<open>unsigned char\<close>: the conversions reduce modulo 256.
\<close>

definition getSize :: "ctype \<Rightarrow> nat" where
  "getSize T =
     (let raw = (CHAR_BIT * sizeof T) mod 256;
          remainder = raw mod 8
      in if 0 = remainder then raw else (raw + 8 - remainder) mod 256)"

definition getTypeKeyInt :: "ctype \<Rightarrow> Type" where
  "getTypeKeyInt T =
     (let sz = getSize T; is_signed = (category T = Integral True) in
      if sz = 8 then (if is_signed then INT8 else UINT8)
      else if sz = 16 then (if is_signed then INT16 else UINT16)
      else if sz = 32 then (if is_signed then INT32 else UINT32)
      else if sz = 64 then (if is_signed then INT64 else UINT64)
      else NONE)"

definition getTypeKeyFloat :: "ctype \<Rightarrow> Type" where
  "getTypeKeyFloat T =
     (let sz = getSize T in
      if sz = 32 then FLT32
      else if sz = 64 then FLT64
      else if sz = 128 then FLT128
      else NONE)"

definition getTypeKey :: "ctype \<Rightarrow> Type" where
  "getTypeKey T =
     (case category T of
        Integral s \<Rightarrow> getTypeKeyInt T
      | Boolean \<Rightarrow> getTypeKeyInt T
      | FloatingPoint \<Rightarrow> getTypeKeyFloat T
      | NonArithmetic \<Rightarrow> NONE)"

section \<open>Scalar encoder\<close>

text \<open>
  \<^verbatim>\<open>for (uchar i = 0; i < size; i += 8)
      val.push_back(static_cast<uchar>(le_input >> i));\<close>
  The size is a multiple of 8 below 256 (lemma \<open>getSize_multiple\<close>), so the
  \<open>unsigned char\<close> counter never wraps around and is a natural number here.
\<close>

function fillArrayInt_loop :: "int \<Rightarrow> nat \<Rightarrow> nat \<Rightarrow> ByteVec \<Rightarrow> ByteVec" where
  "fillArrayInt_loop le_input sz i val =
     (if i < sz
      then fillArrayInt_loop le_input sz (i + 8) (val @ [word_of_int (drop_bit i le_input)])
      else val)"
  by pat_completeness auto
termination
  by (relation "measure (\<lambda>(le_input, sz, i, val). sz - i)") auto

definition fillArrayInt :: "endian \<Rightarrow> ctype \<Rightarrow> int \<Rightarrow> ByteVec" where
  "fillArrayInt host T input =
     (let sz = getSize T;
          le_input =
            (if sz = 8 then input
             else if sz = 16 then cast T (htole16 host input)
             else if sz = 32 then cast T (htole32 host input)
             else if sz = 64 then cast T (htole64 host input)
             else input)
      in fillArrayInt_loop le_input sz 0 [])"

text \<open>\<open>_floatToInt<T, O>\<close>: \<open>data.in = input; return _fillArrayInt(data.out);\<close>\<close>

definition floatToInt :: "endian \<Rightarrow> ctype \<Rightarrow> cvalue \<Rightarrow> ByteVec" where
  "floatToInt host O' input = fillArrayInt host O' (union_out input 0)"

definition floatToInt128 :: "endian \<Rightarrow> cvalue \<Rightarrow> ByteVec" where
  "floatToInt128 host input =
     fillArrayInt host int64_t (union_out input 0) @ fillArrayInt host int64_t (union_out input 1)"

definition fillArrayFloat :: "endian \<Rightarrow> ctype \<Rightarrow> cvalue \<Rightarrow> ByteVec" where
  "fillArrayFloat host T input =
     (let sz = getSize T in
      if sz = 32 then floatToInt host int32_t input
      else if sz = 64 then floatToInt host int64_t input
      else if sz = 128 then floatToInt128 host input
      else [])"

text \<open>The three overloads of \<open>_fillArray\<close>, selected by the type traits of \<open>T\<close>.\<close>

definition fillArray :: "endian \<Rightarrow> ctype \<Rightarrow> cvalue \<Rightarrow> ByteVec" where
  "fillArray host T input =
     (case category T of
        Integral s \<Rightarrow> fillArrayInt host T (int_val input)
      | Boolean \<Rightarrow> fillArrayInt host T (int_val input)
      | FloatingPoint \<Rightarrow> fillArrayFloat host T input
      | NonArithmetic \<Rightarrow> [])"

text \<open>\<open>_setSize\<close>: the encoding of the \<open>uint32_t\<close> goes in front of the array.\<close>

definition setSize :: "endian \<Rightarrow> ByteVec \<Rightarrow> 32 word \<Rightarrow> ByteVec" where
  "setSize host arr sz = fillArrayInt host uint32_t (uint sz) @ arr"

text \<open>\<open>OutStreamHelper<T>::streamOut\<close>, the scalar case of \<open>operator<<\<close>.\<close>

definition streamOut :: "endian \<Rightarrow> ctype \<Rightarrow> SerializedMember \<Rightarrow> cvalue \<Rightarrow> SerializedMember" where
  "streamOut host T k v =
     (let t = fillArray host T v in
      if length t = 0 then k
      else (getTypeKey T, setSize host t 1))"

section \<open>Scalar decoder\<close>

text \<open>
  What the source does outside a vector is a result of its own: \<open>std::vector::at\<close>
  throws \<open>std::out_of_range\<close>; an iterator range or a pointer that leaves the storage is
  undefined behaviour.
\<close>

datatype error = out_of_range | UndefinedBehaviour

definition at :: "'a list \<Rightarrow> nat \<Rightarrow> error + 'a" where
  "at xs n = (if n < length xs then Inr (xs ! n) else Inl out_of_range)"

text \<open>
  \<open>ByteVec(input.begin() + lo, input.begin() + hi)\<close>: the copy of a range of a
  vector, defined only when the range lies inside the vector.
\<close>

definition subvec :: "'a list \<Rightarrow> nat \<Rightarrow> nat \<Rightarrow> error + 'a list" where
  "subvec xs lo hi =
     (if lo \<le> hi \<and> hi \<le> length xs then Inr (take (hi - lo) (drop lo xs))
      else Inl UndefinedBehaviour)"

text \<open>
  \<^verbatim>\<open>T v = 0;
  for (uchar ii = 0; ii < size; ++ii)
      v |= static_cast<T>(input.at(i/8)) << i;\<close>
  The body names \<open>i\<close>, which the function does not declare; it is read as the loop's
  counter \<open>ii\<close>, the only variable it can stand for. The counter advances by one bit,
  not by one byte. The shift and the \<open>|=\<close> are taken in two's complement, and the
  assignment converts the result back to \<open>T\<close>.
\<close>

function readArrayInt_loop :: "ctype \<Rightarrow> ByteVec \<Rightarrow> nat \<Rightarrow> nat \<Rightarrow> int \<Rightarrow> error + int" where
  "readArrayInt_loop T input sz ii v =
     (if ii < sz
      then (case at input (ii div 8) of
              Inl e \<Rightarrow> Inl e
            | Inr b \<Rightarrow>
                readArrayInt_loop T input sz (ii + 1)
                  (cast T (v OR push_bit ii (cast T (uint b)))))
      else Inr v)"
  by pat_completeness auto
termination
  by (relation "measure (\<lambda>(T, input, sz, ii, v). sz - ii)") auto

definition readArrayInt :: "endian \<Rightarrow> ctype \<Rightarrow> ByteVec \<Rightarrow> error + int" where
  "readArrayInt host T input =
     (let sz = getSize T in
      if sz div 8 \<noteq> length input then Inr 0
      else (case readArrayInt_loop T input sz 0 0 of
              Inl e \<Rightarrow> Inl e
            | Inr v \<Rightarrow>
                Inr (if sz = 8 then v
                     else if sz = 16 then cast T (le16toh host v)
                     else if sz = 32 then cast T (le32toh host v)
                     else if sz = 64 then cast T (le64toh host v)
                     else v)))"

text \<open>\<open>static_cast<T>(0)\<close>; the floating-point zero has all bits clear.\<close>

definition zero_value :: "ctype \<Rightarrow> cvalue" where
  "zero_value T =
     (case category T of
        Integral s \<Rightarrow> IntVal 0
      | Boolean \<Rightarrow> IntVal 0
      | FloatingPoint \<Rightarrow> FloatVal (if getSize T = 128 then [0, 0] else [0])
      | NonArithmetic \<Rightarrow> OtherVal 0)"

text \<open>\<open>_intToFloat<T, O>\<close>: \<open>data.in = intVal; return data.out;\<close>\<close>

definition intToFloat :: "endian \<Rightarrow> ctype \<Rightarrow> ByteVec \<Rightarrow> error + cvalue" where
  "intToFloat host T input =
     (case readArrayInt host T input of
        Inl e \<Rightarrow> Inl e
      | Inr intVal \<Rightarrow> Inr (FloatVal [intVal]))"

text \<open>
  \<open>_intToFloat128<O>\<close>; the order of the two words is chosen by
  \<open>#if __BYTE_ORDER == __LITTLE_ENDIAN\<close>.
\<close>

definition intToFloat128 :: "endian \<Rightarrow> ctype \<Rightarrow> ByteVec \<Rightarrow> error + cvalue" where
  "intToFloat128 host O' input =
     (if length input \<noteq> 16 then Inr (zero_value O')
      else (case subvec input 0 8 of
              Inl e \<Rightarrow> Inl e
            | Inr lo \<Rightarrow>
          (case readArrayInt host int64_t lo of
              Inl e \<Rightarrow> Inl e
            | Inr arr0 \<Rightarrow>
          (case subvec input 8 (length input) of
              Inl e \<Rightarrow> Inl e
            | Inr hi \<Rightarrow>
          (case readArrayInt host int64_t hi of
              Inl e \<Rightarrow> Inl e
            | Inr arr1 \<Rightarrow>
                Inr (case host of
                       LittleEndian \<Rightarrow> FloatVal [arr0, arr1]
                     | BigEndian \<Rightarrow> FloatVal [arr1, arr0]))))))"

definition readArrayFloat :: "endian \<Rightarrow> ctype \<Rightarrow> ByteVec \<Rightarrow> error + cvalue" where
  "readArrayFloat host T input =
     (let sz = getSize T in
      if sz div 8 \<noteq> length input then Inr (zero_value T)
      else if sz = 32 then intToFloat host int32_t input
      else if sz = 64 then intToFloat host int64_t input
      else if sz = 128 then intToFloat128 host T input
      else Inr (zero_value T))"

text \<open>
  The three overloads of \<open>_readArray<T>\<close>. The integral one calls
  \<open>_readArrayInt(input)\<close> with no template argument; it is read as \<open>_readArrayInt<T>\<close>.
\<close>

definition readArray :: "endian \<Rightarrow> ctype \<Rightarrow> ByteVec \<Rightarrow> error + cvalue" where
  "readArray host T input =
     (case category T of
        Integral s \<Rightarrow>
          (case readArrayInt host T input of Inl e \<Rightarrow> Inl e | Inr v \<Rightarrow> Inr (IntVal v))
      | Boolean \<Rightarrow>
          (case readArrayInt host T input of Inl e \<Rightarrow> Inl e | Inr v \<Rightarrow> Inr (IntVal v))
      | FloatingPoint \<Rightarrow> readArrayFloat host T input
      | NonArithmetic \<Rightarrow> Inr (zero_value T))"

text \<open>
  \<^verbatim>\<open>uint32_t _getSize(const ByteVec& t)
  { ByteVec sizeVec(t.begin(), t,begin() + 4); return _readArrayInt<uint32_t>(sizeVec); }\<close>
  (\<open>t,begin()\<close> is read as \<open>t.begin()\<close>). There is no test of \<open>t.size()\<close> before the copy.
\<close>

definition getSize_ByteVec :: "endian \<Rightarrow> ByteVec \<Rightarrow> error + 32 word" where
  "getSize_ByteVec host t =
     (case subvec t 0 4 of
        Inl e \<Rightarrow> Inl e
      | Inr sizeVec \<Rightarrow>
          (case readArrayInt host uint32_t sizeVec of
             Inl e \<Rightarrow> Inl e
           | Inr v \<Rightarrow> Inr (word_of_int v)))"

text \<open>\<open>InStreamHelper<T>::streamIn\<close>, the scalar case of \<open>operator>>\<close>; the result is the
  destination variable \<open>v\<close> after the call.\<close>

definition streamIn :: "endian \<Rightarrow> ctype \<Rightarrow> SerializedMember \<Rightarrow> cvalue \<Rightarrow> error + cvalue" where
  "streamIn host T k v =
     (if fst k \<noteq> getTypeKey T \<or> length (snd k) < getSize T div 8 + 4 then Inr v
      else (case subvec (snd k) 4 (4 + getSize T div 8) of
              Inl e \<Rightarrow> Inl e
            | Inr copy \<Rightarrow> readArray host T copy))"

section \<open>Sequence codec\<close>

text \<open>
  \<open>fillOutputVector<T>(begin, end)\<close>; the range is the list of its elements. The counter
  is a \<open>uint32_t\<close>: \<open>std::distance\<close> is converted to it, and \<open>--size\<close> wraps around.
  \<open>reserve\<close> and the final \<open>swap\<close> do not change the contents.
\<close>

fun fillOutputVector_loop ::
  "endian \<Rightarrow> ctype \<Rightarrow> cvalue list \<Rightarrow> 32 word \<Rightarrow> ByteVec \<Rightarrow> 32 word \<times> ByteVec" where
  "fillOutputVector_loop host T [] sz t = (sz, t)"
| "fillOutputVector_loop host T (x # xs) sz t =
     (let member = fillArray host T x in
      if length member = 0 then fillOutputVector_loop host T xs (sz - 1) t
      else fillOutputVector_loop host T xs sz (t @ member))"

definition fillOutputVector :: "endian \<Rightarrow> ctype \<Rightarrow> cvalue list \<Rightarrow> ByteVec" where
  "fillOutputVector host T xs =
     (case fillOutputVector_loop host T xs (of_nat (length xs)) [] of
        (sz, t) \<Rightarrow> setSize host t sz)"

text \<open>\<open>OutStreamHelper<T[N]>::streamOut\<close>, the array case of \<open>operator<<\<close>.\<close>

definition streamOut_array ::
  "endian \<Rightarrow> ctype \<Rightarrow> SerializedMember \<Rightarrow> cvalue list \<Rightarrow> SerializedMember" where
  "streamOut_array host T k v = (getTypeKey T, fillOutputVector host T v)"

text \<open>
  The output iterator of \<open>readByteVec\<close> is a pointer into a fixed array (\<open>Pointer n\<close>
  stands at element \<open>n\<close>) or a \<open>std::back_inserter\<close>. \<open>*(begin++) = x\<close> stores at the
  pointer and advances it, or appends to the vector; a store behind the array's end is
  undefined behaviour.
\<close>

datatype Iter = Pointer nat | BackInserter

definition assign_next :: "Iter \<Rightarrow> cvalue list \<Rightarrow> cvalue \<Rightarrow> error + Iter \<times> cvalue list" where
  "assign_next begin dest x =
     (case begin of
        Pointer n \<Rightarrow>
          (if n < length dest then Inr (Pointer (n + 1), dest[n := x])
           else Inl UndefinedBehaviour)
      | BackInserter \<Rightarrow> Inr (BackInserter, dest @ [x]))"

text \<open>
  \<^verbatim>\<open>for (size_t idx = 0; idx < readSize; ++idx) {
      ByteVec copy(input.begin() + 4 + idx*indSize, input.begin() + 4 + (idx+1)*indSize);
      *(begin++) = _readArray<T>(copy);
  }\<close>
\<close>

function readByteVec_loop ::
  "endian \<Rightarrow> ctype \<Rightarrow> ByteVec \<Rightarrow> nat \<Rightarrow> nat \<Rightarrow> nat \<Rightarrow> Iter \<times> cvalue list
     \<Rightarrow> error + Iter \<times> cvalue list" where
  "readByteVec_loop host T input indSize readSize idx bd =
     (if idx < readSize
      then (case subvec input (4 + idx * indSize) (4 + (idx + 1) * indSize) of
              Inl e \<Rightarrow> Inl e
            | Inr copy \<Rightarrow>
          (case readArray host T copy of
              Inl e \<Rightarrow> Inl e
            | Inr x \<Rightarrow>
          (case assign_next (fst bd) (snd bd) x of
              Inl e \<Rightarrow> Inl e
            | Inr bd' \<Rightarrow> readByteVec_loop host T input indSize readSize (idx + 1) bd')))
      else Inr bd)"
  by pat_completeness auto
termination
  by (relation "measure (\<lambda>(host, T, input, indSize, readSize, idx, bd). readSize - idx)") auto

text \<open>
  \<open>readByteVec<T>(begin, input, outsize)\<close>. The iterator comes with the contents of the
  container it writes to, and both are returned. \<open>size*indSize + 4\<close> is computed in
  \<open>uint32_t\<close> and wraps around; \<open>input.size()\<close>, \<open>readSize\<close> and \<open>outsize\<close> are
  \<open>size_t\<close>.
\<close>

definition readByteVec ::
  "endian \<Rightarrow> ctype \<Rightarrow> Iter \<times> cvalue list \<Rightarrow> ByteVec \<Rightarrow> nat \<Rightarrow> error + Iter \<times> cvalue list" where
  "readByteVec host T bd input outsize =
     (case getSize_ByteVec host input of
        Inl e \<Rightarrow> Inl e
      | Inr sz \<Rightarrow>
          (let indSize = getSize T div 8 in
           if length input < unat (sz * of_nat indSize + 4) then Inr bd
           else (let readSize = (if outsize > 0 then min (unat sz) outsize else unat sz)
                 in readByteVec_loop host T input indSize readSize 0 bd)))"

text \<open>
  \<open>InStreamHelper<T[N]>::streamIn\<close> and \<open>InStreamHelper<std::vector<T> >::streamIn\<close>;
  the result is the destination after the call. \<open>N\<close> is the length of the array.
\<close>

definition streamIn_array ::
  "endian \<Rightarrow> ctype \<Rightarrow> SerializedMember \<Rightarrow> cvalue list \<Rightarrow> error + cvalue list" where
  "streamIn_array host T k v =
     (if fst k \<noteq> getTypeKey T then Inr v
      else (case readByteVec host T (Pointer 0, v) (snd k) (length v) of
              Inl e \<Rightarrow> Inl e
            | Inr bd \<Rightarrow> Inr (snd bd)))"

definition streamIn_vector ::
  "endian \<Rightarrow> ctype \<Rightarrow> SerializedMember \<Rightarrow> cvalue list \<Rightarrow> error + cvalue list" where
  "streamIn_vector host T k v =
     (if fst k \<noteq> getTypeKey T then Inr v
      else (case readByteVec host T (BackInserter, v) (snd k) 0 of
              Inl e \<Rightarrow> Inl e
            | Inr bd \<Rightarrow> Inr (snd bd)))"

section \<open>Member store\<close>

text \<open>
  \<open>Serializable::key\<close> is \<open>_members[k]\<close>: a missing member is created with the
  value-initialised pair, the tag \<open>NONE\<close> and no bytes.
\<close>

type_synonym members = "string \<rightharpoonup> SerializedMember"

definition key :: "string \<Rightarrow> members \<Rightarrow> SerializedMember \<times> members" where
  "key k ms = (case ms k of None \<Rightarrow> ((NONE, []), ms(k \<mapsto> (NONE, []))) | Some m \<Rightarrow> (m, ms))"

section \<open>Factory\<close>

text \<open>
  Objects live on a heap: address \<open>a\<close> holds \<open>Some c\<close> while an object of concrete class
  \<open>c\<close> lives there and \<open>None\<close> once it is deleted; \<open>new\<close> takes the next address.
  \<open>_serializables\<close> is the \<open>std::map\<close> of the factory, a list with unique keys here.
\<close>

datatype pointer = NULL | Ptr nat

record world =
  serializables :: "(string \<times> pointer) list"
  heap :: "string option list"

definition find_key :: "(string \<times> pointer) list \<Rightarrow> string \<Rightarrow> pointer option" where
  "find_key m cName = map_of m cName"

definition live :: "world \<Rightarrow> pointer \<Rightarrow> bool" where
  "live w p = (case p of NULL \<Rightarrow> False | Ptr a \<Rightarrow> a < length (heap w) \<and> heap w ! a \<noteq> None)"

text \<open>
  \<^verbatim>\<open>if (cInst == NULL) return;
  SerializationMap::const_iterator it = _serializables.find(cName);
  if (it == _serializables.cend()) _serializables[cName] = cInst;\<close>
\<close>

definition add :: "string \<Rightarrow> pointer \<Rightarrow> world \<Rightarrow> world" where
  "add cName cInst w =
     (if cInst = NULL then w
      else (case find_key (serializables w) cName of
              None \<Rightarrow> w\<lparr>serializables := serializables w @ [(cName, cInst)]\<rparr>
            | Some it \<Rightarrow> w))"

text \<open>
  Modelled from the spec: the overrides of the pure virtual \<open>Serializable::create\<close> are
  not in the source. Each one is to "produce a new, blank instance of my own concrete
  runtime type": the call through \<open>p\<close> allocates an object of the class of \<open>*p\<close> and
  returns its address. A call through a null or dangling pointer is undefined behaviour.
\<close>

definition Serializable_create :: "pointer \<Rightarrow> world \<Rightarrow> error + pointer \<times> world" where
  "Serializable_create p w =
     (case p of
        NULL \<Rightarrow> Inl UndefinedBehaviour
      | Ptr a \<Rightarrow>
          (if a < length (heap w)
           then (case heap w ! a of
                   None \<Rightarrow> Inl UndefinedBehaviour
                 | Some c \<Rightarrow> Inr (Ptr (length (heap w)), w\<lparr>heap := heap w @ [Some c]\<rparr>))
           else Inl UndefinedBehaviour))"

text \<open>
  \<^verbatim>\<open>SerializationMap::const_iterator it = _serializables.find(cName);
  if (it == _serializables.cend()) return NULL;
  return it->second->create();\<close>
\<close>

definition create :: "string \<Rightarrow> world \<Rightarrow> error + pointer \<times> world" where
  "create cName w =
     (case find_key (serializables w) cName of
        None \<Rightarrow> Inr (NULL, w)
      | Some p \<Rightarrow> Serializable_create p w)"

text \<open>\<open>delete p\<close>: deleting a null pointer does nothing, deleting a dead object is undefined.\<close>

definition delete :: "pointer \<Rightarrow> string option list \<Rightarrow> error + string option list" where
  "delete p h =
     (case p of
        NULL \<Rightarrow> Inr h
      | Ptr a \<Rightarrow>
          (if a < length h \<and> h ! a \<noteq> None then Inr (h[a := None])
           else Inl UndefinedBehaviour))"

fun delete_all :: "(string \<times> pointer) list \<Rightarrow> string option list \<Rightarrow> error + string option list" where
  "delete_all [] h = Inr h"
| "delete_all (it # its) h =
     (case delete (snd it) h of Inl e \<Rightarrow> Inl e | Inr h' \<Rightarrow> delete_all its h')"

text \<open>\<open>Factory::~Factory\<close>: every stored prototype is deleted, then the map is cleared.\<close>

definition destroy_Factory :: "world \<Rightarrow> error + world" where
  "destroy_Factory w =
     (case delete_all (serializables w) (heap w) of
        Inl e \<Rightarrow> Inl e
      | Inr h \<Rightarrow> Inr (w\<lparr>serializables := [], heap := h\<rparr>))"

section \<open>Properties of the encoder\<close>

lemmas ctype_defs = uint8_t_def int8_t_def uint16_t_def int16_t_def uint32_t_def int32_t_def uint64_t_def int64_t_def

declare fillArrayInt_loop.simps [simp del]
declare readArrayInt_loop.simps [simp del]
declare readByteVec_loop.simps [simp del]

lemma getSize_multiple: "getSize T mod 8 = 0 \<and> getSize T < 256"
  by (simp add: getSize_def CHAR_BIT_def Let_def mod_mod_cancel)

lemma fillArrayInt_loop_append:
  "fillArrayInt_loop x sz i (val1 @ val2) = val1 @ fillArrayInt_loop x sz i val2"
proof (induction x sz i val2 arbitrary: val1 rule: fillArrayInt_loop.induct)
  case (1 le_input sz i val)
  show ?case
  proof (cases "i < sz")
    case True
    have "fillArrayInt_loop le_input sz i (val1 @ val)
        = fillArrayInt_loop le_input sz (i + 8) (val1 @ (val @ [word_of_int (drop_bit i le_input)]))"
      using True by (subst fillArrayInt_loop.simps) simp
    also have "\<dots> = val1 @ fillArrayInt_loop le_input sz (i + 8) (val @ [word_of_int (drop_bit i le_input)])"
      using "1.IH" [OF True] .
    also have "\<dots> = val1 @ fillArrayInt_loop le_input sz i val"
      using True by (subst (2) fillArrayInt_loop.simps) simp
    finally show ?thesis .
  next
    case False
    then show ?thesis by (simp add: fillArrayInt_loop.simps)
  qed
qed

lemma step8:
  fixes i sz :: nat
  assumes "sz mod 8 = 0" "i mod 8 = 0" "i < sz"
  shows "(sz - i) div 8 = Suc ((sz - (i + 8)) div 8)"
proof -
  obtain a where a: "i = 8 * a" using assms(2) by (metis mod_0_imp_dvd dvdE)
  obtain b where b: "sz = 8 * b" using assms(1) by (metis mod_0_imp_dvd dvdE)
  have ab: "a < b" using assms(3) a b by simp
  have 1: "sz - i = 8 * (b - a)" using a b by (simp add: right_diff_distrib')
  have 2: "sz - (i + 8) = 8 * (b - a - 1)" using a b by (simp add: right_diff_distrib')
  show ?thesis using ab unfolding 1 2 by simp
qed

lemma length_fillArrayInt_loop:
  "sz mod 8 = 0 \<Longrightarrow> i mod 8 = 0 \<Longrightarrow>
   length (fillArrayInt_loop x sz i val) = length val + (sz - i) div 8"
proof (induction x sz i val rule: fillArrayInt_loop.induct)
  case (1 le_input sz i val)
  show ?case
  proof (cases "i < sz")
    case True
    have step: "fillArrayInt_loop le_input sz i val
        = fillArrayInt_loop le_input sz (i + 8) (val @ [word_of_int (drop_bit i le_input)])"
      using True by (subst fillArrayInt_loop.simps) simp
    have "(i + 8) mod 8 = 0" using "1.prems" by simp
    then have "length (fillArrayInt_loop le_input sz (i + 8) (val @ [word_of_int (drop_bit i le_input)]))
        = length (val @ [word_of_int (drop_bit i le_input)]) + (sz - (i + 8)) div 8"
      using "1.IH" [OF True] "1.prems" by simp
    moreover have "(sz - i) div 8 = Suc ((sz - (i + 8)) div 8)"
      using "1.prems" True by (rule step8)
    ultimately show ?thesis using step by simp
  next
    case False
    then show ?thesis by (simp add: fillArrayInt_loop.simps)
  qed
qed


lemma length_fillArrayInt: "length (fillArrayInt host T x) = getSize T div 8"
  using length_fillArrayInt_loop [of "getSize T" 0 _ "[]"] getSize_multiple [of T]
  by (simp add: fillArrayInt_def Let_def)

lemma getSize_fixed:
  "getSize uint8_t = 8" "getSize int8_t = 8" "getSize uint16_t = 16" "getSize int16_t = 16"
  "getSize uint32_t = 32" "getSize int32_t = 32" "getSize uint64_t = 64" "getSize int64_t = 64"
  by (simp_all add: getSize_def CHAR_BIT_def ctype_defs)

lemma length_fillArrayFloat:
  "length (fillArrayFloat host T v) = 0 \<or> length (fillArrayFloat host T v) = getSize T div 8"
  by (simp add: fillArrayFloat_def floatToInt_def floatToInt128_def length_fillArrayInt
      getSize_fixed Let_def)

lemma length_fillArray:
  "length (fillArray host T v) = 0 \<or> length (fillArray host T v) = getSize T div 8"
  using length_fillArrayFloat [of host T v]
  by (cases "category T") (simp_all add: fillArray_def length_fillArrayInt)

lemma getTypeKey_supported:
  assumes "getTypeKey T \<noteq> NONE"
  shows "length (fillArray host T v) = getSize T div 8" and "0 < getSize T div 8"
proof -
  have sz: "getSize T = 8 \<or> getSize T = 16 \<or> getSize T = 32 \<or> getSize T = 64 \<or> getSize T = 128"
    using assms
    by (cases "category T")
       (auto simp: getTypeKey_def getTypeKeyInt_def getTypeKeyFloat_def Let_def split: if_splits)
  then show "0 < getSize T div 8" by auto
  show "length (fillArray host T v) = getSize T div 8"
  proof (cases "category T")
    case (Integral s)
    then show ?thesis by (simp add: fillArray_def length_fillArrayInt)
  next
    case Boolean
    then show ?thesis by (simp add: fillArray_def length_fillArrayInt)
  next
    case FloatingPoint
    then have "getSize T = 32 \<or> getSize T = 64 \<or> getSize T = 128"
      using assms by (auto simp: getTypeKey_def getTypeKeyFloat_def Let_def split: if_splits)
    then show ?thesis using FloatingPoint
      by (auto simp: fillArray_def fillArrayFloat_def floatToInt_def floatToInt128_def
          length_fillArrayInt getSize_fixed Let_def)
  next
    case NonArithmetic
    then show ?thesis using assms by (simp add: getTypeKey_def)
  qed
qed

lemma fillArrayInt_uint32_LittleEndian:
  "fillArrayInt LittleEndian uint32_t (uint (w :: 32 word)) =
     [word_of_int (uint w), word_of_int (drop_bit 8 (uint w)),
      word_of_int (drop_bit 16 (uint w)), word_of_int (drop_bit 24 (uint w))]"
proof -
  have tb: "take_bit 32 (uint w) = uint w"
    by (simp add: take_bit_int_eq_self_iff) (use uint_lt2p [of w] in simp)
  have "cast uint32_t (htole32 LittleEndian (uint w)) = uint w"
    by (simp add: cast_def htole32_def uint32_t_def CHAR_BIT_def tb)
  then show ?thesis
    by (simp add: fillArrayInt_def getSize_fixed fillArrayInt_loop.simps [of _ 32])
qed

lemma length_setSize: "length (setSize host arr sz) = 4 + length arr"
  by (simp add: setSize_def length_fillArrayInt getSize_fixed)

lemma setSize_LittleEndian:
  "setSize LittleEndian arr sz =
     [word_of_int (uint sz), word_of_int (drop_bit 8 (uint sz)),
      word_of_int (drop_bit 16 (uint sz)), word_of_int (drop_bit 24 (uint sz))] @ arr"
  by (simp add: setSize_def fillArrayInt_uint32_LittleEndian)

lemma cast_uint16_t: "cast uint16_t x = take_bit 16 x"
  by (simp add: cast_def uint16_t_def CHAR_BIT_def)

lemma fillArrayInt_uint16_LittleEndian:
  "fillArrayInt LittleEndian uint16_t 0x1234 = [0x34, 0x12]"
  by (simp add: fillArrayInt_def getSize_fixed cast_uint16_t htole16_def
      fillArrayInt_loop.simps [of _ 16])

text \<open>
  On a big-endian host \<open>htole16\<close> swaps the two bytes and the shifts then take the
  high byte of the value first.
\<close>

lemma fillArrayInt_uint16_BigEndian:
  "fillArrayInt BigEndian uint16_t 0x1234 = [0x12, 0x34]"
  by code_simp

lemma category_fixed:
  "category uint8_t = Integral False" "category int8_t = Integral True"
  "category uint16_t = Integral False" "category int16_t = Integral True"
  "category uint32_t = Integral False" "category int32_t = Integral True"
  "category uint64_t = Integral False" "category int64_t = Integral True"
  by (simp_all add: ctype_defs)

lemma getTypeKey_fixed:
  "getTypeKey uint8_t = UINT8" "getTypeKey int8_t = INT8"
  "getTypeKey uint16_t = UINT16" "getTypeKey int16_t = INT16"
  "getTypeKey uint32_t = UINT32" "getTypeKey int32_t = INT32"
  "getTypeKey uint64_t = UINT64" "getTypeKey int64_t = INT64"
  by (simp_all add: getTypeKey_def getTypeKeyInt_def category_fixed getSize_fixed)

text \<open>
  C3. On a little-endian host, writing the \<open>uint16_t\<close> value \<open>0x1234\<close> into any member
  leaves the tag \<open>UINT16\<close> and the six bytes \<open>01 00 00 00 34 12\<close>: the count in front is
  the \<open>1\<close> that \<open>streamOut\<close> passes to \<open>_setSize\<close>.
\<close>

theorem scenario_A_streamOut:
  "streamOut LittleEndian uint16_t k (IntVal 0x1234) = (UINT16, [0x01, 0x00, 0x00, 0x00, 0x34, 0x12])"
  by (simp add: streamOut_def fillArray_def category_fixed
      fillArrayInt_uint16_LittleEndian setSize_LittleEndian getTypeKey_fixed)

text \<open>
  C3, as the specification words it: the stored buffer is not \<open>02 00 00 00 34 12\<close>.
\<close>

theorem scenario_A_counterexample:
  "streamOut LittleEndian uint16_t (NONE, []) (IntVal 0x1234)
     \<noteq> (UINT16, [0x02, 0x00, 0x00, 0x00, 0x34, 0x12])"
  by (simp add: streamOut_def fillArray_def category_fixed
      fillArrayInt_uint16_LittleEndian setSize_LittleEndian getTypeKey_fixed)

text \<open>
  The layout of a scalar member. For every type with a tag other than \<open>NONE\<close> and every
  value, the buffer that \<open>streamOut\<close> stores has \<open>4 + _getSize<T>()/8\<close> bytes on either
  host, and on a little-endian host its first four bytes are \<open>01 00 00 00\<close>, the
  little-endian \<open>uint32_t\<close> 1.
\<close>

lemma streamOut_scalar_layout:
  assumes "getTypeKey T \<noteq> NONE"
  shows "length (snd (streamOut host T k v)) = 4 + getSize T div 8
       \<and> take 4 (snd (streamOut LittleEndian T k v)) = [1, 0, 0, 0]"
proof -
  have len: "length (fillArray h T v) = getSize T div 8" and pos: "0 < getSize T div 8" for h
    using getTypeKey_supported [OF assms] by simp_all
  have ne: "fillArray h T v \<noteq> []" for h
    using len [of h] pos by auto
  have out: "snd (streamOut h T k v) = setSize h (fillArray h T v) 1" for h
    using ne [of h] by (simp add: streamOut_def Let_def)
  have A: "length (snd (streamOut host T k v)) = 4 + getSize T div 8"
    using len [of host] by (simp add: out length_setSize)
  have B: "take 4 (snd (streamOut LittleEndian T k v)) = [1, 0, 0, 0]"
    by (simp add: out setSize_LittleEndian)
  from A B show ?thesis by simp
qed

lemma streamOut_scalar_layout_int32_t:
  "getTypeKey int32_t \<noteq> NONE
   \<and> length (snd (streamOut LittleEndian int32_t (NONE, []) (IntVal (- 2)))) = 4 + getSize int32_t div 8
   \<and> take 4 (snd (streamOut LittleEndian int32_t (NONE, []) (IntVal (- 2)))) = [1, 0, 0, 0]"
proof -
  have h: "getTypeKey int32_t \<noteq> NONE"
    by (simp add: getTypeKey_fixed)
  show ?thesis
    using h streamOut_scalar_layout [OF h, of LittleEndian "(NONE, [])" "IntVal (- 2)"] by blast
qed

text \<open>
  C4 on a big-endian host, at the \<open>uint16_t\<close> value \<open>0x1234\<close>: the stored buffer has
  the \<open>4 + 2\<close> bytes of the claim, but its first four are \<open>00 00 00 01\<close>, which read as a
  little-endian \<open>uint32_t\<close> are 16777216 and not 1. \<open>htole32\<close> has swapped the count to
  \<open>0x01000000\<close>, and the shifts of \<open>_fillArrayInt\<close> then take the low byte of that
  first, although the comment there holds the \<open>htole\<close> functions safe on any platform.
\<close>

theorem streamOut_prefix_BigEndian:
  "streamOut BigEndian uint16_t (NONE, []) (IntVal 0x1234)
     = (UINT16, [0x00, 0x00, 0x00, 0x01, 0x12, 0x34])"
  by code_simp

lemma fillOutputVector_loop_eq:
  "fillOutputVector_loop host T xs sz t =
     (sz - of_nat (length (filter (\<lambda>x. fillArray host T x = []) xs)),
      t @ concat (map (fillArray host T) xs))"
  by (induction xs arbitrary: sz t) (simp_all add: Let_def algebra_simps)

lemma concat_nonempty:
  "concat (map f (filter (\<lambda>x. f x \<noteq> []) xs)) = concat (map f xs)"
  by (induction xs) simp_all

lemma count_nonempty:
  "(of_nat (length xs) :: 32 word) - of_nat (length (filter P xs))
     = of_nat (length (filter (\<lambda>x. \<not> P x) xs))"
proof -
  have "length xs = length (filter P xs) + length (filter (\<lambda>x. \<not> P x) xs)"
    by (simp add: sum_length_filter_compl)
  then have "(of_nat (length xs) :: 32 word)
      = of_nat (length (filter P xs)) + of_nat (length (filter (\<lambda>x. \<not> P x) xs))"
    by (metis of_nat_add)
  then show ?thesis by simp
qed

lemma fillOutputVector_eq:
  "fillOutputVector host T xs =
     setSize host (concat (map (fillArray host T) (filter (\<lambda>x. fillArray host T x \<noteq> []) xs)))
       (of_nat (length (filter (\<lambda>x. fillArray host T x \<noteq> []) xs)))"
  by (simp add: fillOutputVector_def fillOutputVector_loop_eq count_nonempty concat_nonempty)

lemma uint_of_nat_32: "n < 2 ^ 32 \<Longrightarrow> uint (of_nat n :: 32 word) = int n"
  by (simp add: uint_nat unat_of_nat take_bit_eq_mod)

lemma byte_of_nat_mod: "(of_nat (n mod 256) :: uchar) = of_nat n"
  by (simp add: word_of_nat_eq_iff take_bit_eq_mod)

lemma le_bytes_count:
  assumes "n < 2 ^ 32"
  shows "[word_of_int (uint (of_nat n :: 32 word)),
          word_of_int (drop_bit 8 (uint (of_nat n :: 32 word))),
          word_of_int (drop_bit 16 (uint (of_nat n :: 32 word))),
          word_of_int (drop_bit 24 (uint (of_nat n :: 32 word)))]
       = [of_nat (n mod 256), of_nat (n div 256 mod 256),
          of_nat (n div 65536 mod 256), of_nat (n div 16777216 mod 256) :: uchar]"
proof -
  have d: "word_of_int (drop_bit k (int n)) = (of_nat (n div 2 ^ k) :: uchar)" for k
  proof -
    have "drop_bit k (int n) = int (n div 2 ^ k)"
      by (simp add: drop_bit_eq_div zdiv_int)
    then show ?thesis by simp
  qed
  show ?thesis
    using d [of 0] d [of 8] d [of 16] d [of 24]
    by (simp add: uint_of_nat_32 [OF assms] byte_of_nat_mod)
qed

lemma length_concat_const:
  "(\<And>x. x \<in> set ys \<Longrightarrow> length (f x) = w) \<Longrightarrow> length (concat (map f ys)) = length ys * w"
  by (induction ys) simp_all

lemma fillArray_uint8_t: "fillArray host uint8_t (IntVal i) = [word_of_int i]"
  by (simp add: fillArray_def category_fixed fillArrayInt_def getSize_fixed
      fillArrayInt_loop.simps [of _ 8])

lemma fillArray_NonArithmetic: "fillArray host (CType NonArithmetic s) v = []"
  by (simp add: fillArray_def)

text \<open>
  C7. For every element type and every input sequence with fewer than \<open>2 ^ 32\<close>
  elements of non-empty encoding, on a little-endian host: \<open>fillOutputVector\<close> returns
  the four bytes of their number \<open>n\<close>, least significant first, followed by the
  encodings of exactly these elements in the order of the input; each of them has
  \<open>_getSize<T>()/8\<close> bytes, and the whole buffer has \<open>4 + n * (_getSize<T>()/8)\<close>.
\<close>

theorem fillOutputVector_layout:
  assumes "length (filter (\<lambda>x. fillArray LittleEndian T x \<noteq> []) xs) < 2 ^ 32"
  shows "let kept = filter (\<lambda>x. fillArray LittleEndian T x \<noteq> []) xs; n = length kept in
           fillOutputVector LittleEndian T xs =
             [of_nat (n mod 256), of_nat (n div 256 mod 256),
              of_nat (n div 65536 mod 256), of_nat (n div 16777216 mod 256)]
             @ concat (map (fillArray LittleEndian T) kept)
         \<and> (\<forall>x \<in> set kept. length (fillArray LittleEndian T x) = getSize T div 8)
         \<and> length (fillOutputVector LittleEndian T xs) = 4 + n * (getSize T div 8)"
proof -
  define kept where "kept = filter (\<lambda>x. fillArray LittleEndian T x \<noteq> []) xs"
  define n where "n = length kept"
  have n: "n < 2 ^ 32" using assms by (simp add: n_def kept_def)
  have A: "fillOutputVector LittleEndian T xs =
             [of_nat (n mod 256), of_nat (n div 256 mod 256),
              of_nat (n div 65536 mod 256), of_nat (n div 16777216 mod 256)]
             @ concat (map (fillArray LittleEndian T) kept)"
    unfolding fillOutputVector_eq setSize_LittleEndian kept_def [symmetric] n_def [symmetric]
    by (simp only: le_bytes_count [OF n])
  have B: "length (fillArray LittleEndian T x) = getSize T div 8" if "x \<in> set kept" for x
    using that length_fillArray [of LittleEndian T x] by (simp add: kept_def)
  have "length (concat (map (fillArray LittleEndian T) kept)) = n * (getSize T div 8)"
    unfolding n_def by (rule length_concat_const) (rule B)
  then have C: "length (fillOutputVector LittleEndian T xs) = 4 + n * (getSize T div 8)"
    by (simp add: A)
  from A B C show ?thesis
    unfolding Let_def kept_def [symmetric] n_def [symmetric] by blast
qed

text \<open>
  The three \<open>uint8_t\<close> values 1, 2, 3 give \<open>03 00 00 00 01 02 03\<close>; two values of a
  non-arithmetic type are both dropped and leave the count 0.
\<close>

theorem fillOutputVector_layout_witness:
  "length (filter (\<lambda>x. fillArray LittleEndian uint8_t x \<noteq> []) [IntVal 1, IntVal 2, IntVal 3]) < 2 ^ 32
   \<and> fillOutputVector LittleEndian uint8_t [IntVal 1, IntVal 2, IntVal 3] = [3, 0, 0, 0, 1, 2, 3]
   \<and> length (fillOutputVector LittleEndian uint8_t [IntVal 1, IntVal 2, IntVal 3])
       = 4 + 3 * (getSize uint8_t div 8)
   \<and> length (filter (\<lambda>x. fillArray LittleEndian (CType NonArithmetic 8) x \<noteq> [])
         [OtherVal 1, OtherVal 2]) < 2 ^ 32
   \<and> fillOutputVector LittleEndian (CType NonArithmetic 8) [OtherVal 1, OtherVal 2] = [0, 0, 0, 0]"
proof -
  have h: "length (filter (\<lambda>x. fillArray LittleEndian uint8_t x \<noteq> [])
             [IntVal 1, IntVal 2, IntVal 3]) < 2 ^ 32"
    by (simp add: fillArray_uint8_t)
  have h': "length (filter (\<lambda>x. fillArray LittleEndian (CType NonArithmetic 8) x \<noteq> [])
             [OtherVal 1, OtherVal 2]) < 2 ^ 32"
    by (simp add: fillArray_NonArithmetic)
  have A: "fillOutputVector LittleEndian uint8_t [IntVal 1, IntVal 2, IntVal 3] = [3, 0, 0, 0, 1, 2, 3]
     \<and> length (fillOutputVector LittleEndian uint8_t [IntVal 1, IntVal 2, IntVal 3])
         = 4 + 3 * (getSize uint8_t div 8)"
    using fillOutputVector_layout [OF h] by (simp add: fillArray_uint8_t getSize_fixed Let_def)
  have B: "fillOutputVector LittleEndian (CType NonArithmetic 8) [OtherVal 1, OtherVal 2] = [0, 0, 0, 0]"
    using fillOutputVector_layout [OF h'] by (simp add: fillArray_NonArithmetic Let_def)
  from h h' A B show ?thesis by blast
qed

text \<open>
  C7 without the bound: for \<open>2 ^ 32\<close> values of type \<open>uint8_t\<close>, all with a non-empty
  encoding, the count in front is \<open>00 00 00 00\<close>. \<open>uint32_t size = std::distance(begin,
  end)\<close> has kept the number modulo \<open>2 ^ 32\<close>.
\<close>

theorem fillOutputVector_count_wraps:
  "take 4 (fillOutputVector LittleEndian uint8_t (replicate 4294967296 (IntVal 0))) = [0, 0, 0, 0]
   \<and> length (filter (\<lambda>x. fillArray LittleEndian uint8_t x \<noteq> [])
                (replicate 4294967296 (IntVal 0))) = 4294967296"
proof -
  have k: "filter (\<lambda>x. fillArray LittleEndian uint8_t x \<noteq> []) (replicate n (IntVal 0))
             = replicate n (IntVal 0)" for n
    by (simp add: fillArray_uint8_t)
  have z: "(of_nat 4294967296 :: 32 word) = 0"
    by simp
  have "take 4 (fillOutputVector LittleEndian uint8_t (replicate 4294967296 (IntVal 0))) = [0, 0, 0, 0]"
    unfolding fillOutputVector_eq k length_replicate z by (simp add: setSize_LittleEndian)
  then show ?thesis unfolding k by simp
qed

section \<open>Properties of the decoder\<close>

lemma getSize_ByteVec_short: "length t < 4 \<Longrightarrow> getSize_ByteVec host t = Inl UndefinedBehaviour"
  by (simp add: getSize_ByteVec_def subvec_def)

lemma readByteVec_short:
  "length input < 4 \<Longrightarrow> readByteVec host T bd input outsize = Inl UndefinedBehaviour"
  by (simp add: readByteVec_def getSize_ByteVec_short)

lemma getSize_ByteVec_0x40: "getSize_ByteVec LittleEndian [0, 0, 0, 0x40] = Inr 0xC0000000"
  by code_simp

lemma readByteVec_check_wraps:
  "readByteVec LittleEndian uint32_t (BackInserter, []) [0, 0, 0, 0x40] 0 = Inl UndefinedBehaviour"
proof -
  have c: "unat (0xC0000000 * of_nat (getSize uint32_t div 8) + 4 :: 32 word) = 4"
    by (simp add: getSize_fixed)
  have l: "readByteVec_loop LittleEndian uint32_t [0, 0, 0, 0x40] 4 (unat (0xC0000000 :: 32 word)) 0
             (BackInserter, []) = Inl UndefinedBehaviour"
    by (subst readByteVec_loop.simps) (simp add: subvec_def)
  show ?thesis
    unfolding readByteVec_def getSize_ByteVec_0x40 Let_def
    using c l by (simp add: getSize_fixed)
qed

text \<open>
  C1 at the \<open>uint16_t\<close> value \<open>0x1234\<close>, little-endian host: the payload is
  \<open>34 12\<close> and is read back as \<open>0xFFFC\<close> (through a member as well, lemma
  \<open>member_round_trip_0x1234\<close>). The loop of \<open>_readArrayInt\<close> visits every bit
  position \<open>i\<close> and ORs in the whole byte \<open>i/8\<close> shifted by \<open>i\<close>.
\<close>

theorem scalar_round_trip_0x1234:
  "fillArray LittleEndian uint16_t (IntVal 0x1234) = [0x34, 0x12]
   \<and> readArray LittleEndian uint16_t (fillArray LittleEndian uint16_t (IntVal 0x1234))
       = Inr (IntVal 0xFFFC)"
  by code_simp

text \<open>
  For \<open>bool\<close> every step of the loop converts to 0 or 1, and a byte that is not zero
  is read as \<open>true\<close>.
\<close>

lemma readArray_bool_t:
  "readArray LittleEndian bool_t [0x02] = Inr (IntVal 1)
   \<and> readArray LittleEndian bool_t (fillArray LittleEndian bool_t (IntVal 1)) = Inr (IntVal 1)
   \<and> getTypeKey bool_t = UINT8"
  by code_simp

lemma member_round_trip_0x1234:
  "streamIn LittleEndian uint16_t
     (streamOut LittleEndian uint16_t (NONE, []) (IntVal 0x1234)) (IntVal 0) = Inr (IntVal 0xFFFC)"
  by code_simp

text \<open>
  C5 at the buffer \<open>03 00 00 00 01 02 03\<close>, which \<open>fillOutputVector\<close> makes of the
  three \<open>uint8_t\<close> values 1, 2, 3: \<open>_getSize\<close> reads the count 511 from the prefix,
  the test \<open>input.size() < size*indSize + 4\<close> holds, and nothing is decoded, neither
  into a vector nor into an array of three elements.
\<close>

theorem readByteVec_scenario_B:
  "fillOutputVector LittleEndian uint8_t [IntVal 1, IntVal 2, IntVal 3] = [3, 0, 0, 0, 1, 2, 3]
   \<and> getSize_ByteVec LittleEndian [3, 0, 0, 0, 1, 2, 3] = Inr 511
   \<and> readByteVec LittleEndian uint8_t (BackInserter, []) [3, 0, 0, 0, 1, 2, 3] 0 = Inr (BackInserter, [])
   \<and> readByteVec LittleEndian uint8_t (Pointer 0, [IntVal 9, IntVal 9, IntVal 9]) [3, 0, 0, 0, 1, 2, 3] 3
        = Inr (Pointer 0, [IntVal 9, IntVal 9, IntVal 9])"
  by code_simp

text \<open>
  C6. When the tag of the member is not \<open>_getTypeKey<T>()\<close>, \<open>operator>>\<close> returns
  with the destination as it was: a scalar, a fixed array and a vector alike.
\<close>

theorem streamIn_tag_mismatch:
  assumes "fst k \<noteq> getTypeKey T"
  shows "streamIn host T k v = Inr v
       \<and> streamIn_array host T k vs = Inr vs
       \<and> streamIn_vector host T k vs = Inr vs"
  using assms by (simp add: streamIn_def streamIn_array_def streamIn_vector_def)

theorem streamIn_tag_mismatch_witness:
  "fst (UINT16, [0x01, 0x00, 0x00, 0x00, 0x34, 0x12]) \<noteq> getTypeKey int16_t
   \<and> streamIn LittleEndian int16_t (UINT16, [0x01, 0x00, 0x00, 0x00, 0x34, 0x12]) (IntVal 7) = Inr (IntVal 7)
   \<and> streamIn_array LittleEndian int16_t (UINT16, [0x01, 0x00, 0x00, 0x00, 0x34, 0x12]) [IntVal 7, IntVal 8]
       = Inr [IntVal 7, IntVal 8]
   \<and> streamIn_vector LittleEndian int16_t (UINT16, [0x01, 0x00, 0x00, 0x00, 0x34, 0x12]) [IntVal 7, IntVal 8]
       = Inr [IntVal 7, IntVal 8]"
proof -
  have h: "fst (UINT16, [0x01, 0x00, 0x00, 0x00, 0x34, 0x12 :: uchar]) \<noteq> getTypeKey int16_t"
    by (simp add: getTypeKey_fixed)
  show ?thesis
    using h streamIn_tag_mismatch [OF h, of LittleEndian "IntVal 7" "[IntVal 7, IntVal 8]"] by simp
qed

text \<open>
  C9 at a buffer shorter than four bytes: a member that \<open>key\<close> has just created (tag
  \<open>NONE\<close>, no bytes) read into a vector of a non-arithmetic element type, and the member
  \<open>(UINT8, 01 02 03)\<close> read into a \<open>uint8_t\<close> array. In both \<open>_getSize\<close> copies the
  range \<open>[begin, begin + 4)\<close>, which leaves the buffer.
\<close>

theorem readByteVec_short_buffer:
  "streamIn_vector LittleEndian (CType NonArithmetic 8) (fst (key ''x'' Map.empty)) [] = Inl UndefinedBehaviour
   \<and> streamIn_array LittleEndian uint8_t (UINT8, [1, 2, 3]) [IntVal 0] = Inl UndefinedBehaviour"
  by code_simp

section \<open>Properties of the factory\<close>

text \<open>
  C10. \<open>add\<close> with a null prototype changes nothing: the map and the heap are as before,
  whatever the name.
\<close>

theorem add_NULL_noop: "add cName NULL w = w"
  by (simp add: add_def)

lemma find_append_new:
  "find_key m cName = None \<Longrightarrow> find_key (m @ [(cName, p)]) cName = Some p"
  by (simp add: find_key_def map_add_def [symmetric] map_add_Some_iff)

lemma add_twice:
  assumes "find_key (serializables w) cName = None" and "p1 \<noteq> NULL"
  shows "add cName p2 (add cName p1 w) = w\<lparr>serializables := serializables w @ [(cName, p1)]\<rparr>"
  using assms by (simp add: add_def find_append_new)

text \<open>
  C8. \<open>create\<close> of a name that is not registered returns the null pointer and leaves the
  world as it was. \<open>create\<close> of a name registered with a live prototype of class \<open>c\<close>
  returns the address of a new object, one that did not exist before, of the same class
  \<open>c\<close>; the map and the objects that existed are as before.
\<close>

theorem create_result:
  "(find_key (serializables w) cName = None \<longrightarrow> create cName w = Inr (NULL, w))
   \<and> (find_key (serializables w) cName = Some (Ptr a) \<and> a < length (heap w) \<and> heap w ! a = Some c
        \<longrightarrow> create cName w = Inr (Ptr (length (heap w)), w\<lparr>heap := heap w @ [Some c]\<rparr>)
          \<and> \<not> live w (Ptr (length (heap w)))
          \<and> live (w\<lparr>heap := heap w @ [Some c]\<rparr>) (Ptr (length (heap w)))
          \<and> (heap w @ [Some c]) ! length (heap w) = heap w ! a)"
  by (simp add: create_def Serializable_create_def live_def)

theorem create_result_witness:
  "find_key (serializables \<lparr>serializables = [(''Foo'', Ptr 0)], heap = [Some ''Foo'']\<rparr>) ''Bar'' = None
   \<and> create ''Bar'' \<lparr>serializables = [(''Foo'', Ptr 0)], heap = [Some ''Foo'']\<rparr>
       = Inr (NULL, \<lparr>serializables = [(''Foo'', Ptr 0)], heap = [Some ''Foo'']\<rparr>)
   \<and> find_key (serializables \<lparr>serializables = [(''Foo'', Ptr 0)], heap = [Some ''Foo'']\<rparr>) ''Foo'' = Some (Ptr 0)
   \<and> create ''Foo'' \<lparr>serializables = [(''Foo'', Ptr 0)], heap = [Some ''Foo'']\<rparr>
       = Inr (Ptr 1, \<lparr>serializables = [(''Foo'', Ptr 0)], heap = [Some ''Foo'', Some ''Foo'']\<rparr>)"
proof -
  let ?w = "\<lparr>serializables = [(''Foo'', Ptr 0)], heap = [Some ''Foo'']\<rparr>"
  have h1: "find_key (serializables ?w) ''Bar'' = None"
    by (simp add: find_key_def)
  have h2: "find_key (serializables ?w) ''Foo'' = Some (Ptr 0) \<and> 0 < length (heap ?w) \<and> heap ?w ! 0 = Some ''Foo''"
    by (simp add: find_key_def)
  show ?thesis
    using h1 h2 create_result [of ?w "''Bar''" 0 "''Foo''"] create_result [of ?w "''Foo''" 0 "''Foo''"]
    by simp
qed

text \<open>
  C2. When \<open>cName\<close> is not registered and \<open>p1\<close> is a live prototype of class \<open>c\<close>, then
  after \<open>add(cName, p1)\<close> and \<open>add(cName, p2)\<close> the map holds \<open>p1\<close> under \<open>cName\<close> and
  nothing of \<open>p2\<close>, \<open>create(cName)\<close> is the \<open>create()\<close> of \<open>p1\<close> and gives a new object
  of class \<open>c\<close>, and the heap is untouched: the second call deletes nothing.
\<close>

theorem add_duplicate_keeps_first:
  assumes "find_key (serializables w) cName = None"
    and "a < length (heap w)" and "heap w ! a = Some c"
  shows "let w' = add cName p2 (add cName (Ptr a) w) in
           serializables w' = serializables w @ [(cName, Ptr a)]
         \<and> find_key (serializables w') cName = Some (Ptr a)
         \<and> heap w' = heap w
         \<and> create cName w' = Serializable_create (Ptr a) w'
         \<and> create cName w' = Inr (Ptr (length (heap w)), w'\<lparr>heap := heap w @ [Some c]\<rparr>)"
  using assms
  by (simp add: add_twice find_append_new create_def Serializable_create_def)

theorem add_duplicate_keeps_first_witness:
  "find_key (serializables \<lparr>serializables = [], heap = [Some ''Foo'', Some ''Bar'']\<rparr>) ''T'' = None
   \<and> add ''T'' (Ptr 1) (add ''T'' (Ptr 0) \<lparr>serializables = [], heap = [Some ''Foo'', Some ''Bar'']\<rparr>)
       = \<lparr>serializables = [(''T'', Ptr 0)], heap = [Some ''Foo'', Some ''Bar'']\<rparr>
   \<and> create ''T'' (add ''T'' (Ptr 1) (add ''T'' (Ptr 0) \<lparr>serializables = [], heap = [Some ''Foo'', Some ''Bar'']\<rparr>))
       = Inr (Ptr 2, \<lparr>serializables = [(''T'', Ptr 0)], heap = [Some ''Foo'', Some ''Bar'', Some ''Foo'']\<rparr>)"
proof -
  let ?w = "\<lparr>serializables = [], heap = [Some ''Foo'', Some ''Bar'']\<rparr>"
  have h1: "find_key (serializables ?w) ''T'' = None" by (simp add: find_key_def)
  have h2: "0 < length (heap ?w)" by simp
  have h3: "heap ?w ! 0 = Some ''Foo''" by simp
  show ?thesis
    using h1 add_duplicate_keeps_first [OF h1 h2 h3, of "Ptr 1"]
    by (simp add: Let_def add_def find_key_def create_def Serializable_create_def)
qed

text \<open>
  C2, as the specification words it: after the rejected registration the second
  prototype is still alive, and it survives the destructor of the factory as well.
\<close>

theorem add_duplicate_not_destroyed:
  "live (add ''T'' (Ptr 1) (add ''T'' (Ptr 0) \<lparr>serializables = [], heap = [Some ''Foo'', Some ''Bar'']\<rparr>)) (Ptr 1)
   \<and> destroy_Factory (add ''T'' (Ptr 1) (add ''T'' (Ptr 0) \<lparr>serializables = [], heap = [Some ''Foo'', Some ''Bar'']\<rparr>))
       = Inr \<lparr>serializables = [], heap = [None, Some ''Bar'']\<rparr>"
  by (simp add: add_def find_key_def live_def destroy_Factory_def delete_def)

end
